theory Spec2Isabelle
  imports Main
begin

section \<open>Python values used by the adapter\<close>

text \<open>
  The adapter (\<^verbatim>\<open>pythonx/pudb_and_jam.py\<close>) reads three attributes of a
  \<^verbatim>\<open>bdb.Breakpoint\<close>: \<^verbatim>\<open>file\<close> (here \<open>bp_file\<close>), \<^verbatim>\<open>line\<close> and \<^verbatim>\<open>cond\<close>. Python's \<^verbatim>\<open>None\<close> is
  \<open>None\<close>, a condition string \<open>c\<close> is \<open>Some c\<close>; the empty string is \<open>Some []\<close>.
  Line numbers are Python integers.
\<close>

record breakpoint =
  bp_file :: string
  line :: int
  cond :: "string option"

type_synonym bp_key = "string \<times> int"

type_synonym bp_record = "string \<times> int \<times> string option"

text \<open>\<^verbatim>\<open>Breakpoint(file, line, cond=None)\<close>: the constructor call of the source.\<close>

definition Breakpoint :: "string \<Rightarrow> int \<Rightarrow> string option \<Rightarrow> breakpoint" where
  "Breakpoint f l c = \<lparr>bp_file = f, line = l, cond = c\<rparr>"

subsection \<open>Insertion-ordered dictionaries\<close>

text \<open>
  A Python dict keeps its keys in insertion order: assigning to a key that is present
  replaces the value where it stands, assigning to a new key appends it, \<^verbatim>\<open>pop\<close> removes
  the entry, \<^verbatim>\<open>values()\<close> lists the values in key order.  Subscripting with a missing
  key raises \<^verbatim>\<open>KeyError\<close>, which is the \<open>None\<close> of \<open>dict_get\<close>.
\<close>

type_synonym ('k, 'v) pydict = "('k \<times> 'v) list"

fun dict_set :: "'k \<Rightarrow> 'v \<Rightarrow> ('k, 'v) pydict \<Rightarrow> ('k, 'v) pydict" where
  "dict_set k v [] = [(k, v)]"
| "dict_set k v (e # d) = (if fst e = k then (k, v) # d else e # dict_set k v d)"

definition dict_contains :: "'k \<Rightarrow> ('k, 'v) pydict \<Rightarrow> bool" where
  "dict_contains k d = (k \<in> set (map fst d))"

definition dict_pop :: "'k \<Rightarrow> ('k, 'v) pydict \<Rightarrow> ('k, 'v) pydict" where
  "dict_pop k d = filter (\<lambda>e. fst e \<noteq> k) d"

definition dict_get :: "('k, 'v) pydict \<Rightarrow> 'k \<Rightarrow> 'v option" where
  "dict_get d k = map_of d k"

definition dict_values :: "('k, 'v) pydict \<Rightarrow> 'v list" where
  "dict_values d = map snd d"

subsection \<open>Strings\<close>

text \<open>
  \<^verbatim>\<open>str(n)\<close> and the \<^verbatim>\<open>d\<close> format of an integer: decimal digits, with a leading minus
  sign for a negative number.
\<close>

definition digit_char :: "nat \<Rightarrow> char" where
  "digit_char n = ''0123456789'' ! (n mod 10)"

fun str_nat :: "nat \<Rightarrow> string" where
  "str_nat n = (if n < 10 then [digit_char n] else str_nat (n div 10) @ [digit_char n])"

declare str_nat.simps [simp del]

definition str_int :: "int \<Rightarrow> string" where
  "str_int i = (if i < 0 then CHR ''-'' # str_nat (nat (- i)) else str_nat (nat i))"

text \<open>\<^verbatim>\<open>sep.join(parts)\<close>.\<close>

fun join :: "string \<Rightarrow> string list \<Rightarrow> string" where
  "join sep [] = []"
| "join sep [x] = x"
| "join sep (x # y # ys) = x @ sep @ join sep (y # ys)"

text \<open>
  \<^verbatim>\<open>str.isspace\<close> of Python 3 on the code points below 256, and \<^verbatim>\<open>str.strip()\<close>, which
  removes the whitespace at both ends.
\<close>

definition is_space :: "char \<Rightarrow> bool" where
  "is_space c = (of_char c \<in> set [9, 10, 11, 12, 13, 28, 29, 30, 31, 32, 133, 160 :: nat])"

definition strip :: "string \<Rightarrow> string" where
  "strip s = rev (dropWhile is_space (rev (dropWhile is_space s)))"

text \<open>\<^verbatim>\<open>xs[0]\<close>: \<open>None\<close> is the \<^verbatim>\<open>IndexError\<close> raised on an empty list.\<close>

fun first_item :: "'a list \<Rightarrow> 'a option" where
  "first_item [] = None"
| "first_item (x # _) = Some x"

section \<open>The collaborators: breakpoint store and editor host\<close>

text \<open>
  Neither collaborator is code of the adapter.  The state they hold is gathered in one
  record, and each call the adapter makes is a function on it.

  \<^item> \<open>store\<close>: the records persisted by the breakpoint store, in the store's order.
  \<^item> \<open>buffers\<close>: the buffers loaded in the editor, by file name, with their lines.
  \<^item> \<open>signs\<close>: the signs placed in the adapter's sign group, as (file, line, priority).
  \<^item> \<open>pudb_priority\<close>: the editor variable \<^verbatim>\<open>g:pudb_priority\<close>.
  \<^item> \<open>cursor_file\<close>, \<open>cursor_row\<close>: what \<^verbatim>\<open>expand("%:p")\<close> and the window cursor give.
  \<^item> \<open>input_reply\<close>: what the user answers at the input prompt, given the text the
    prompt is filled with; \<open>None\<close> when the prompt does not return a string
    (the call raises).
  \<^item> \<open>list_commands\<close>: the list commands issued so far, each with the list it was given.
\<close>

datatype error = VimError | KeyError

record world =
  store :: "bp_record list"
  buffers :: "string \<Rightarrow> string list option"
  signs :: "(string \<times> int \<times> int) list"
  pudb_priority :: int
  cursor_file :: string
  cursor_row :: int
  input_reply :: "string \<Rightarrow> string option"
  list_commands :: "(string \<times> string list) list"

text \<open>
  Modelled from the spec: the breakpoint store (\<^verbatim>\<open>pudb.settings\<close>), section 6:
  \<^verbatim>\<open>load()\<close> gives the sequence of persisted records, \<^verbatim>\<open>save(records)\<close> replaces the
  whole content by the (file, line, condition) of the breakpoints it is given.
\<close>

definition load_breakpoints :: "world \<Rightarrow> bp_record list" where
  "load_breakpoints w = store w"

definition save_breakpoints :: "breakpoint list \<Rightarrow> world \<Rightarrow> world" where
  "save_breakpoints bps w = w\<lparr>store := map (\<lambda>bp. (bp_file bp, line bp, cond bp)) bps\<rparr>"

text \<open>
  Modelled from the spec: the editor's sign facility (sections 4.1 and 7).
  \<^verbatim>\<open>sign_unplace(group)\<close> removes every sign of the group; \<^verbatim>\<open>sign_place\<close> adds one sign,
  and fails with \<^verbatim>\<open>vim.error\<close> (the \<open>None\<close>) when no buffer is loaded for the file.
\<close>

definition sign_unplace :: "world \<Rightarrow> world" where
  "sign_unplace w = w\<lparr>signs := []\<rparr>"

definition sign_place :: "string \<Rightarrow> int \<Rightarrow> int \<Rightarrow> world \<Rightarrow> world option" where
  "sign_place f l p w =
     (case buffers w f of
        None \<Rightarrow> None
      | Some _ \<Rightarrow> Some (w\<lparr>signs := signs w @ [(f, l, p)]\<rparr>))"

text \<open>
  Modelled from the spec: buffer content access by file name and line (sections 6
  and 7).  \<^verbatim>\<open>getbufline(name, lnum)\<close> is the one-element list of line \<open>lnum\<close> (counted
  from 1) of a loaded buffer, and the empty list when the buffer is not loaded or the
  line number is out of range.
\<close>

definition getbufline :: "world \<Rightarrow> string \<Rightarrow> int \<Rightarrow> string list" where
  "getbufline w name lnum =
     (case buffers w name of
        None \<Rightarrow> []
      | Some ls \<Rightarrow> if 1 \<le> lnum \<and> lnum \<le> int (length ls) then [ls ! nat (lnum - 1)] else [])"

text \<open>Modelled from the spec: the editor's modal input prompt (section 6).\<close>

definition vim_input :: "world \<Rightarrow> string \<Rightarrow> error + string" where
  "vim_input w prefill = (case input_reply w prefill of None \<Rightarrow> Inl VimError | Some s \<Rightarrow> Inr s)"

section \<open>The adapter\<close>

text \<open>
  An operation that can let an exception escape ends in an \<open>outcome\<close>: \<open>Returned w\<close>
  when it ran to its end, \<open>Raised e w\<close> when exception \<open>e\<close> left it with the world in
  state \<open>w\<close>.
\<close>

datatype outcome = Returned world | Raised error world

definition breakpoints :: "world \<Rightarrow> breakpoint list" where
  "breakpoints w = map (\<lambda>(f, l, c). Breakpoint f l c) (load_breakpoints w)"

definition breakpoint_dict :: "world \<Rightarrow> (bp_key, breakpoint) pydict" where
  "breakpoint_dict w = fold (\<lambda>bp d. dict_set (bp_file bp, line bp) bp d) (breakpoints w) []"

definition breakpoint_strings :: "world \<Rightarrow> string list" where
  "breakpoint_strings w =
     map (\<lambda>bp. bp_file bp @ '':'' @ str_int (line bp) @ '':'' @
                (case cond bp of
                   None \<Rightarrow> '' ''
                 | Some c \<Rightarrow> if c \<noteq> [] then c else '' ''))
         (breakpoints w)"

text \<open>
  \<^verbatim>\<open>update\<close>: the signs of the group are removed, then the loop places one sign per
  breakpoint; the \<^verbatim>\<open>except vim.error: continue\<close> keeps the world as it was before the
  failed call and goes on with the next breakpoint.
\<close>

definition update :: "world \<Rightarrow> world" where
  "update w =
     (let w0 = sign_unplace w
      in fold (\<lambda>bp w'. case sign_place (bp_file bp) (line bp) (pudb_priority w') w' of
                          None \<Rightarrow> w'
                        | Some w'' \<Rightarrow> w'')
              (breakpoints w0) w0)"

definition current_position :: "world \<Rightarrow> bp_key" where
  "current_position w = (cursor_file w, cursor_row w)"

definition toggle :: "world \<Rightarrow> world" where
  "toggle w =
     (let bps = breakpoint_dict w;
          bp_key = current_position w;
          bps' = (if dict_contains bp_key bps then dict_pop bp_key bps
                  else dict_set bp_key (Breakpoint (fst bp_key) (snd bp_key) None) bps)
      in update (save_breakpoints (dict_values bps') w))"

text \<open>
  \<^verbatim>\<open>edit\<close>, in two parts.  \<open>edit_bps\<close> is the dict as it stands when the prompt opens
  (the first lines of the function, up to the lookup \<^verbatim>\<open>bp = bps[bp_key]\<close>).  \<open>edit\<close> reads
  the breakpoint, asks for the new condition with \<open>old_cond\<close> filled in, assigns it to
  the breakpoint object (which the dict holds), saves and updates.  The echo and
  highlight commands around the prompt change nothing of the world.
\<close>

definition edit_bps :: "world \<Rightarrow> (bp_key, breakpoint) pydict" where
  "edit_bps w =
     (let bps = breakpoint_dict w;
          bp_key = current_position w
      in if \<not> dict_contains bp_key bps
         then dict_set bp_key (Breakpoint (fst bp_key) (snd bp_key) None) bps
         else bps)"

definition old_cond :: "breakpoint \<Rightarrow> string" where
  "old_cond bp = (case cond bp of None \<Rightarrow> [] | Some c \<Rightarrow> c)"

definition edit :: "world \<Rightarrow> outcome" where
  "edit w =
     (let bps = edit_bps w;
          bp_key = current_position w
      in case dict_get bps bp_key of
           None \<Rightarrow> Raised KeyError w
         | Some bp \<Rightarrow>
             (case vim_input w (old_cond bp) of
                Inl e \<Rightarrow> Raised e w
              | Inr new_cond \<Rightarrow>
                  Returned (update (save_breakpoints
                    (dict_values (dict_set bp_key (bp\<lparr>cond := Some new_cond\<rparr>) bps)) w))))"

definition clearAll :: "world \<Rightarrow> world" where
  "clearAll w = update (save_breakpoints [] w)"

text \<open>
  \<^verbatim>\<open>populateList\<close>: \<open>qf_line\<close> is the body of the \<^verbatim>\<open>try\<close> with its
  \<^verbatim>\<open>except LookupError\<close>, \<open>qf_entries\<close> the loop that appends one string per breakpoint.
\<close>

definition qf_line :: "world \<Rightarrow> breakpoint \<Rightarrow> string" where
  "qf_line w bp =
     (case first_item (getbufline w (bp_file bp) (line bp)) of
        None \<Rightarrow> ''<buffer not loaded>''
      | Some l \<Rightarrow> if strip l = [] then ''<blank line>'' else l)"

definition qf_entries :: "world \<Rightarrow> string list" where
  "qf_entries w =
     fold (\<lambda>bp qflist. qflist @ [join '':'' [bp_file bp, str_int (line bp), qf_line w bp]])
          (breakpoints w) []"

definition populateList :: "string \<Rightarrow> world \<Rightarrow> world" where
  "populateList list_command w =
     (let w1 = update w
      in w1\<lparr>list_commands := list_commands w1 @ [(list_command, qf_entries w1)]\<rparr>)"

definition quickfixList :: "world \<Rightarrow> world" where
  "quickfixList w = populateList ''cgetexpr'' w"

definition locationList :: "world \<Rightarrow> world" where
  "locationList w = populateList ''lgetexpr'' w"


section \<open>Notions used by the statements\<close>

text \<open>The identity key of a stored record: its file path and line number.\<close>

definition record_key :: "bp_record \<Rightarrow> bp_key" where
  "record_key r = (fst r, fst (snd r))"

text \<open>A dict as \<open>breakpoint_dict\<close> builds it: every value sits under its own key.\<close>

definition own_keyed :: "(bp_key, breakpoint) pydict \<Rightarrow> bool" where
  "own_keyed d = (\<forall>e \<in> set d. fst e = (bp_file (snd e), line (snd e)))"

section \<open>Example worlds\<close>

text \<open>
  Concrete states on which the statements below are evaluated: the two-breakpoint store
  of the scenarios with the cursor on line 10 and on line 20, a prompt that answers, a
  store holding two records under one key, and an editor with one loaded buffer.
\<close>

definition scenario_world :: world where
  "scenario_world =
     \<lparr>store = [(''/a.py'', 10, None), (''/a.py'', 20, Some ''x>0'')],
      buffers = Map.empty, signs = [], pudb_priority = 10,
      cursor_file = ''/a.py'', cursor_row = 10,
      input_reply = (\<lambda>prefill. None), list_commands = []\<rparr>"

definition reply_world :: world where
  "reply_world =
     \<lparr>store = [(''/a.py'', 10, None), (''/a.py'', 10, Some ''y''), (''/a.py'', 20, Some ''x>0'')],
      buffers = Map.empty, signs = [], pudb_priority = 10,
      cursor_file = ''/a.py'', cursor_row = 10,
      input_reply = (\<lambda>prefill. Some (prefill @ ''z'')), list_commands = []\<rparr>"

definition conditional_world :: world where
  "conditional_world =
     \<lparr>store = [(''/a.py'', 10, None), (''/a.py'', 20, Some ''x>0'')],
      buffers = Map.empty, signs = [], pudb_priority = 10,
      cursor_file = ''/a.py'', cursor_row = 20,
      input_reply = (\<lambda>prefill. None), list_commands = []\<rparr>"

definition duplicate_world :: world where
  "duplicate_world =
     \<lparr>store = [(''/a.py'', 1, Some ''x>0''), (''/a.py'', 1, None), (''/b.py'', 2, None)],
      buffers = Map.empty, signs = [], pudb_priority = 10,
      cursor_file = ''/b.py'', cursor_row = 2,
      input_reply = (\<lambda>prefill. None), list_commands = []\<rparr>"

definition loaded_world :: world where
  "loaded_world =
     \<lparr>store = [(''/a.py'', 1, None), (''/b.py'', 7, None), (''/a.py'', 2, Some ''x>0''),
               (''/a.py'', 3, None)],
      buffers = [''/a.py'' \<mapsto> [''x = 1'', ''  '']],
      signs = [(''/old.py'', 4, 10)], pudb_priority = 10,
      cursor_file = ''/a.py'', cursor_row = 1,
      input_reply = (\<lambda>prefill. None), list_commands = []\<rparr>"

section \<open>Helper lemmas\<close>

subsection \<open>Dictionaries\<close>

lemma dict_set_keys: "set (map fst (dict_set k v d)) = insert k (set (map fst d))"
  by (induction d) auto

lemma dict_set_distinct: "distinct (map fst d) \<Longrightarrow> distinct (map fst (dict_set k v d))"
  by (induction d) (auto simp: dict_set_keys [simplified])

lemma dict_set_absent: "k \<notin> set (map fst d) \<Longrightarrow> dict_set k v d = d @ [(k, v)]"
  by (induction d) auto

lemma dict_set_map_of: "map_of (dict_set k v d) = (map_of d)(k \<mapsto> v)"
  by (induction d) (auto simp: fun_eq_iff)

lemma dict_set_values_own_key:
  "\<forall>e \<in> set d. fst e = g (snd e) \<Longrightarrow> k = g v \<Longrightarrow> \<forall>e \<in> set (dict_set k v d). fst e = g (snd e)"
  by (induction d) auto

lemma find_app: "List.find P (xs @ ys) = (case List.find P xs of None \<Rightarrow> List.find P ys | Some x \<Rightarrow> Some x)"
  by (induction xs) auto

lemma fold_dict_keys:
  "set (map fst (fold (\<lambda>bp. dict_set (g bp) bp) bps d)) = set (map g bps) \<union> set (map fst d)"
  by (induction bps arbitrary: d) (auto simp: dict_set_keys [simplified])

lemma fold_dict_distinct:
  "distinct (map fst d) \<Longrightarrow> distinct (map fst (fold (\<lambda>bp. dict_set (g bp) bp) bps d))"
  by (induction bps arbitrary: d) (auto simp: dict_set_distinct)

lemma fold_dict_own_key:
  "\<forall>e \<in> set d. fst e = g (snd e) \<Longrightarrow>
   \<forall>e \<in> set (fold (\<lambda>bp. dict_set (g bp) bp) bps d). fst e = g (snd e)"
proof (induction bps arbitrary: d)
  case Nil
  then show ?case by simp
next
  case (Cons bp bps)
  have "\<forall>e \<in> set (dict_set (g bp) bp d). fst e = g (snd e)"
    using Cons.prems by (rule dict_set_values_own_key) simp
  then show ?case using Cons.IH by simp
qed

lemma fold_dict_map_of:
  "map_of (fold (\<lambda>bp. dict_set (g bp) bp) bps d) k =
     (case List.find (\<lambda>bp. g bp = k) (rev bps) of None \<Rightarrow> map_of d k | Some bp \<Rightarrow> Some bp)"
  by (induction bps arbitrary: d) (auto simp: find_app dict_set_map_of split: option.splits)

lemma fold_dict_distinct_keys:
  "distinct (map g bps) \<Longrightarrow> set (map g bps) \<inter> set (map fst d) = {} \<Longrightarrow>
   fold (\<lambda>bp. dict_set (g bp) bp) bps d = d @ map (\<lambda>bp. (g bp, bp)) bps"
proof (induction bps arbitrary: d)
  case Nil
  then show ?case by simp
next
  case (Cons bp bps)
  have absent: "g bp \<notin> set (map fst d)" using Cons.prems(2) by auto
  have step: "dict_set (g bp) bp d = d @ [(g bp, bp)]"
    using absent by (rule dict_set_absent)
  have disj: "set (map g bps) \<inter> set (map fst (d @ [(g bp, bp)])) = {}"
    using Cons.prems by auto
  have "distinct (map g bps)" using Cons.prems(1) by simp
  from Cons.IH [OF this disj] show ?case by (simp add: step)
qed

subsection \<open>The store\<close>

lemma breakpoints_save [simp]: "breakpoints (save_breakpoints bps w) = bps"
  by (induction bps)
     (simp_all add: breakpoints_def load_breakpoints_def save_breakpoints_def Breakpoint_def)

lemma store_save: "store (save_breakpoints bps w) = map (\<lambda>bp. (bp_file bp, line bp, cond bp)) bps"
  by (simp add: save_breakpoints_def)

lemma records_of_breakpoints:
  "map (\<lambda>bp. (bp_file bp, line bp, cond bp)) (breakpoints w) = store w"
  by (simp add: breakpoints_def load_breakpoints_def Breakpoint_def comp_def split_def)

lemma keys_of_breakpoints:
  "map (\<lambda>bp. (bp_file bp, line bp)) (breakpoints w) = map record_key (store w)"
  by (simp add: breakpoints_def load_breakpoints_def Breakpoint_def comp_def split_def record_key_def)

subsection \<open>The sign loop\<close>

lemma place_loop:
  "fold (\<lambda>bp w'. case sign_place (bp_file bp) (line bp) (pudb_priority w') w' of
                     None \<Rightarrow> w' | Some w'' \<Rightarrow> w'') bps w =
   w\<lparr>signs := signs w @ map (\<lambda>bp. (bp_file bp, line bp, pudb_priority w))
                            (filter (\<lambda>bp. buffers w (bp_file bp) \<noteq> None) bps)\<rparr>"
  by (induction bps arbitrary: w) (auto simp: sign_place_def split: option.splits)

lemma update_eq:
  "update w = w\<lparr>signs := map (\<lambda>bp. (bp_file bp, line bp, pudb_priority w))
                            (filter (\<lambda>bp. buffers w (bp_file bp) \<noteq> None) (breakpoints w))\<rparr>"
  by (simp add: update_def Let_def place_loop sign_unplace_def breakpoints_def load_breakpoints_def)


subsection \<open>The dict built from the store, and toggle\<close>

lemma breakpoint_dict_distinct: "distinct (map fst (breakpoint_dict w))"
  unfolding breakpoint_dict_def
  using fold_dict_distinct [of "[]" "\<lambda>bp. (bp_file bp, line bp)"] by simp

lemma breakpoint_dict_own_keyed: "own_keyed (breakpoint_dict w)"
  unfolding breakpoint_dict_def own_keyed_def
  using fold_dict_own_key [of "[]" "\<lambda>bp. (bp_file bp, line bp)"] by simp

lemma breakpoint_dict_keys: "set (map fst (breakpoint_dict w)) = set (map record_key (store w))"
  unfolding breakpoint_dict_def
  using fold_dict_keys [of "\<lambda>bp. (bp_file bp, line bp)" "breakpoints w" "[]"]
  by (simp add: keys_of_breakpoints [simplified])

lemma breakpoint_dict_contains:
  "dict_contains k (breakpoint_dict w) = (k \<in> set (map record_key (store w)))"
  unfolding dict_contains_def using breakpoint_dict_keys by simp

lemma breakpoint_dict_unique:
  assumes "distinct (map record_key (store w))"
  shows "breakpoint_dict w = map (\<lambda>bp. ((bp_file bp, line bp), bp)) (breakpoints w)"
proof -
  have "distinct (map (\<lambda>bp. (bp_file bp, line bp)) (breakpoints w))"
    using assms by (simp add: keys_of_breakpoints)
  then show ?thesis
    unfolding breakpoint_dict_def
    using fold_dict_distinct_keys [of "\<lambda>bp. (bp_file bp, line bp)" "breakpoints w" "[]"]
    by simp
qed

lemma own_keyed_record_keys:
  "own_keyed d \<Longrightarrow>
   map record_key (map (\<lambda>bp. (bp_file bp, line bp, cond bp)) (dict_values d)) = map fst d"
  by (induction d) (auto simp: own_keyed_def dict_values_def record_key_def)

lemma own_keyed_pop: "own_keyed d \<Longrightarrow> own_keyed (dict_pop k d)"
  by (simp add: own_keyed_def dict_pop_def)

lemma own_keyed_set:
  "own_keyed d \<Longrightarrow> k = (bp_file bp, line bp) \<Longrightarrow> own_keyed (dict_set k bp d)"
  unfolding own_keyed_def by (rule dict_set_values_own_key)

lemma distinct_pop: "distinct (map fst d) \<Longrightarrow> distinct (map fst (dict_pop k d))"
  by (simp add: dict_pop_def distinct_map_filter)

lemma store_update [simp]: "store (update w) = store w"
  by (simp add: update_eq)

lemma position_update [simp]: "current_position (update w) = current_position w"
  by (simp add: update_eq current_position_def)

lemma position_save [simp]: "current_position (save_breakpoints bps w) = current_position w"
  by (simp add: save_breakpoints_def current_position_def)

lemma position_toggle: "current_position (toggle w) = current_position w"
  by (simp add: toggle_def Let_def)

lemma toggle_store:
  "store (toggle w) =
     map (\<lambda>bp. (bp_file bp, line bp, cond bp))
       (dict_values
         (if dict_contains (current_position w) (breakpoint_dict w)
          then dict_pop (current_position w) (breakpoint_dict w)
          else dict_set (current_position w)
                 (Breakpoint (cursor_file w) (cursor_row w) None) (breakpoint_dict w)))"
  by (simp add: toggle_def Let_def store_save current_position_def)

lemma toggle_store_distinct: "distinct (map record_key (store (toggle w)))"
proof -
  let ?k = "current_position w"
  let ?d = "breakpoint_dict w"
  let ?new = "Breakpoint (cursor_file w) (cursor_row w) None"
  let ?d' = "if dict_contains ?k ?d then dict_pop ?k ?d else dict_set ?k ?new ?d"
  have key_new: "?k = (bp_file ?new, line ?new)"
    by (simp add: Breakpoint_def current_position_def)
  have ok: "own_keyed ?d'"
    using own_keyed_pop [OF breakpoint_dict_own_keyed, of ?k w]
      own_keyed_set [OF breakpoint_dict_own_keyed key_new, of w]
    by simp
  have dist: "distinct (map fst ?d')"
    by (simp add: distinct_pop dict_set_distinct breakpoint_dict_distinct)
  show ?thesis
    unfolding toggle_store using own_keyed_record_keys [OF ok] dist by simp
qed

lemma toggle_absent:
  assumes "distinct (map record_key (store w))"
      and "current_position w \<notin> set (map record_key (store w))"
  shows "store (toggle w) = store w @ [(cursor_file w, cursor_row w, None)]"
proof -
  let ?k = "current_position w"
  let ?d = "breakpoint_dict w"
  have notin: "\<not> dict_contains ?k ?d"
    using assms(2) by (simp add: breakpoint_dict_contains)
  then have "?k \<notin> set (map fst ?d)" by (simp add: dict_contains_def)
  then have "dict_set ?k (Breakpoint (cursor_file w) (cursor_row w) None) ?d
             = ?d @ [(?k, Breakpoint (cursor_file w) (cursor_row w) None)]"
    by (rule dict_set_absent)
  then show ?thesis
    unfolding toggle_store using notin
    by (simp add: breakpoint_dict_unique [OF assms(1)] dict_values_def comp_def
        records_of_breakpoints Breakpoint_def)
qed

lemma toggle_present:
  assumes "distinct (map record_key (store w))"
      and "current_position w \<in> set (map record_key (store w))"
  shows "store (toggle w) = filter (\<lambda>r. record_key r \<noteq> current_position w) (store w)"
proof -
  let ?k = "current_position w"
  have isin: "dict_contains ?k (breakpoint_dict w)"
    using assms(2) by (simp add: breakpoint_dict_contains)
  have "map (\<lambda>bp. (bp_file bp, line bp, cond bp))
          (filter (\<lambda>bp. (bp_file bp, line bp) \<noteq> ?k) (breakpoints w))
        = filter (\<lambda>r. record_key r \<noteq> ?k) (store w)"
    by (simp add: breakpoints_def load_breakpoints_def Breakpoint_def filter_map comp_def
        split_def record_key_def)
  then show ?thesis
    unfolding toggle_store using isin
    by (simp add: breakpoint_dict_unique [OF assms(1)] dict_values_def dict_pop_def
        filter_map comp_def)
qed

lemma edit_bps_own_keyed: "own_keyed (edit_bps w)"
proof -
  let ?new = "Breakpoint (fst (current_position w)) (snd (current_position w)) None"
  have "current_position w = (bp_file ?new, line ?new)"
    by (simp add: Breakpoint_def)
  from own_keyed_set [OF breakpoint_dict_own_keyed this]
  show ?thesis
    by (simp add: edit_bps_def Let_def breakpoint_dict_own_keyed)
qed

lemma edit_bps_distinct: "distinct (map fst (edit_bps w))"
  by (simp add: edit_bps_def Let_def breakpoint_dict_distinct dict_set_distinct)

lemma edit_bps_contains: "current_position w \<in> set (map fst (edit_bps w))"
  using dict_set_keys [of "current_position w" _ "breakpoint_dict w"]
  by (simp add: edit_bps_def Let_def dict_contains_def)

lemma edit_bps_lookup:
  "\<exists>bp. dict_get (edit_bps w) (current_position w) = Some bp \<and>
        (bp_file bp, line bp) = current_position w"
proof -
  obtain bp where in_d: "(current_position w, bp) \<in> set (edit_bps w)"
    using edit_bps_contains [of w] by auto
  have "map_of (edit_bps w) (current_position w) = Some bp"
    using edit_bps_distinct in_d by (rule map_of_is_SomeI)
  moreover have "(bp_file bp, line bp) = current_position w"
    using edit_bps_own_keyed [of w] in_d by (auto simp: own_keyed_def)
  ultimately show ?thesis by (auto simp: dict_get_def)
qed

lemma edit_returned:
  assumes "dict_get (edit_bps w) (current_position w) = Some bp"
      and "input_reply w (old_cond bp) = Some c"
  shows "edit w = Returned (update (save_breakpoints
           (dict_values (dict_set (current_position w) (bp\<lparr>cond := Some c\<rparr>) (edit_bps w))) w))"
  using assms by (simp add: edit_def Let_def vim_input_def)

lemma edit_raised:
  assumes "dict_get (edit_bps w) (current_position w) = Some bp"
      and "input_reply w (old_cond bp) = None"
  shows "edit w = Raised VimError w"
  using assms by (simp add: edit_def Let_def vim_input_def)

lemma edit_store_distinct:
  assumes "edit w = Returned w'"
  shows "distinct (map record_key (store w'))"
proof -
  obtain bp where look: "dict_get (edit_bps w) (current_position w) = Some bp"
    and key: "(bp_file bp, line bp) = current_position w"
    using edit_bps_lookup by blast
  obtain c where reply: "input_reply w (old_cond bp) = Some c"
    using assms look by (cases "input_reply w (old_cond bp)") (auto simp: edit_raised)
  let ?d = "dict_set (current_position w) (bp\<lparr>cond := Some c\<rparr>) (edit_bps w)"
  have w': "w' = update (save_breakpoints (dict_values ?d) w)"
    using assms edit_returned [OF look reply] by simp
  have "current_position w = (bp_file (bp\<lparr>cond := Some c\<rparr>), line (bp\<lparr>cond := Some c\<rparr>))"
    using key by simp
  from own_keyed_set [OF edit_bps_own_keyed this]
  have ok: "own_keyed ?d" .
  have "distinct (map fst ?d)"
    by (simp add: dict_set_distinct edit_bps_distinct)
  then show ?thesis
    unfolding w' using own_keyed_record_keys [OF ok] by (simp add: store_save)
qed

lemma clearAll_store: "store (clearAll w) = []"
  by (simp add: clearAll_def store_save)

lemmas adapter_defs = breakpoint_strings_def breakpoints_def load_breakpoints_def Breakpoint_def
  str_int_def str_nat.simps digit_char_def breakpoint_dict_def toggle_def update_def
  sign_unplace_def sign_place_def save_breakpoints_def dict_contains_def dict_pop_def
  dict_values_def dict_get_def current_position_def edit_def edit_bps_def vim_input_def
  qf_entries_def qf_line_def getbufline_def strip_def is_space_def populateList_def clearAll_def
  record_key_def old_cond_def

lemma cursor_toggle:
  "cursor_file (toggle w) = cursor_file w" "cursor_row (toggle w) = cursor_row w"
  by (simp_all add: toggle_def Let_def update_eq save_breakpoints_def)

subsection \<open>Lookup, the prompt and the list entries\<close>

lemma find_rev_last:
  assumes "j < length xs" "P (xs ! j)" "\<forall>m. j < m \<and> m < length xs \<longrightarrow> \<not> P (xs ! m)"
  shows "List.find P (rev xs) = Some (xs ! j)"
  using assms
proof (induction xs arbitrary: j rule: rev_induct)
  case Nil
  then show ?case by simp
next
  case (snoc x xs)
  show ?case
  proof (cases "j = length xs")
    case True
    then show ?thesis using snoc.prems(2) by simp
  next
    case False
    then have j: "j < length xs" using snoc.prems(1) by simp
    have notx: "\<not> P x"
      using snoc.prems(3) j by (metis length_append_singleton lessI nth_append_length)
    have Pj: "P (xs ! j)" using snoc.prems(2) j by (simp add: nth_append)
    have later: "\<forall>m. j < m \<and> m < length xs \<longrightarrow> \<not> P (xs ! m)"
    proof (intro allI impI)
      fix m assume m: "j < m \<and> m < length xs"
      then have "\<not> P ((xs @ [x]) ! m)" using snoc.prems(3) by simp
      then show "\<not> P (xs ! m)" using m by (simp add: nth_append)
    qed
    from snoc.IH [OF j Pj later] notx j show ?thesis by (simp add: nth_append)
  qed
qed

lemma strip_empty: "strip s = [] \<longleftrightarrow> list_all is_space s"
proof
  assume "strip s = []"
  then have "dropWhile is_space (rev (dropWhile is_space s)) = []"
    by (simp add: strip_def)
  then have all_rest: "\<forall>c \<in> set (dropWhile is_space s). is_space c"
    by simp
  have "dropWhile is_space s = []"
  proof (cases "dropWhile is_space s")
    case Nil
    then show ?thesis .
  next
    case (Cons c cs)
    then have "\<not> is_space c" by (metis hd_dropWhile list.sel(1) list.distinct(1))
    moreover have "is_space c" using all_rest Cons by simp
    ultimately show ?thesis by simp
  qed
  then show "list_all is_space s"
    by (simp add: list_all_iff)
next
  assume "list_all is_space s"
  then have "dropWhile is_space s = []"
    by (induction s) simp_all
  then show "strip s = []" by (simp add: strip_def del: dropWhile_eq_Nil_conv)
qed

lemma append_loop: "fold (\<lambda>x acc. acc @ [f x]) xs acc = acc @ map f xs"
  by (induction xs arbitrary: acc) simp_all

lemma qf_line_cases:
  "qf_line w bp =
     (case buffers w (bp_file bp) of
        None \<Rightarrow> ''<buffer not loaded>''
      | Some ls \<Rightarrow>
          if 1 \<le> line bp \<and> line bp \<le> int (length ls)
          then if list_all is_space (ls ! nat (line bp - 1)) then ''<blank line>''
               else ls ! nat (line bp - 1)
          else ''<buffer not loaded>'')"
  by (simp add: qf_line_def getbufline_def strip_empty split: option.splits)

lemma qf_entries_eq:
  "qf_entries w =
     map (\<lambda>bp. bp_file bp @ '':'' @ str_int (line bp) @ '':'' @ qf_line w bp) (breakpoints w)"
  by (simp add: qf_entries_def append_loop)

lemma qf_line_update: "qf_line (update w) bp = qf_line w bp"
  by (simp add: qf_line_cases update_eq)

lemma breakpoints_update: "breakpoints (update w) = breakpoints w"
  by (simp add: breakpoints_def load_breakpoints_def)

lemma map_of_snoc_absent: "k \<notin> set (map fst d) \<Longrightarrow> map_of (d @ [(k, v)]) k = Some v"
  by (induction d) auto

lemma dict_set_snoc: "k \<notin> set (map fst d) \<Longrightarrow> dict_set k v' (d @ [(k, v)]) = d @ [(k, v')]"
  by (induction d) auto

section \<open>The claims\<close>

subsection \<open>C1: toggling twice\<close>

text \<open>
  C1 as stated does not hold. In \<open>conditional_world\<close> the keys are unique and the cursor
  is on the breakpoint with condition \<^verbatim>\<open>x>0\<close>: the first toggle removes it, the second
  creates \<^verbatim>\<open>Breakpoint(*bp_key)\<close>, which has no condition.
\<close>

theorem toggle_twice_counterexample:
  "distinct (map record_key (store conditional_world)) \<and>
   (''/a.py'', 20, Some ''x>0'') \<in> set (store conditional_world) \<and>
   (''/a.py'', 20, Some ''x>0'') \<notin> set (store (toggle (toggle conditional_world))) \<and>
   store (toggle (toggle conditional_world)) = [(''/a.py'', 10, None), (''/a.py'', 20, None)]"
  by (simp add: conditional_world_def adapter_defs)

text \<open>
  C1, amended. For a store whose (file, line) keys are unique and a cursor whose key is
  absent from the store or holds a record without condition, toggling twice at that key
  gives back the original set of records.
\<close>

theorem toggle_twice_restores:
  assumes "distinct (map record_key (store w))"
      and "\<forall>r \<in> set (store w). record_key r = current_position w \<longrightarrow> snd (snd r) = None"
  shows "set (store (toggle (toggle w))) = set (store w)"
proof (cases "current_position w \<in> set (map record_key (store w))")
  case False
  have first: "store (toggle w) = store w @ [(cursor_file w, cursor_row w, None)]"
    using assms(1) False by (rule toggle_absent)
  have present: "current_position (toggle w) \<in> set (map record_key (store (toggle w)))"
    by (simp add: first record_key_def current_position_def cursor_toggle)
  have "store (toggle (toggle w)) =
          filter (\<lambda>r. record_key r \<noteq> current_position (toggle w)) (store (toggle w))"
    using toggle_store_distinct present by (rule toggle_present)
  also have "\<dots> = filter (\<lambda>r. record_key r \<noteq> current_position w) (store w)"
    by (simp add: first record_key_def current_position_def cursor_toggle)
  also have "\<dots> = store w"
    using False by (force simp: filter_id_conv)
  finally show ?thesis by simp
next
  case True
  let ?k = "current_position w"
  have first: "store (toggle w) = filter (\<lambda>r. record_key r \<noteq> ?k) (store w)"
    using assms(1) True by (rule toggle_present)
  have absent: "current_position (toggle w) \<notin> set (map record_key (store (toggle w)))"
    by (auto simp: position_toggle first)
  have second: "store (toggle (toggle w)) =
          filter (\<lambda>r. record_key r \<noteq> ?k) (store w) @ [(cursor_file w, cursor_row w, None)]"
    using toggle_absent [OF toggle_store_distinct absent] by (simp add: first cursor_toggle)
  have at_key: "r = (cursor_file w, cursor_row w, None)"
    if "r \<in> set (store w)" "record_key r = ?k" for r
  proof -
    have "snd (snd r) = None" using assms(2) that by blast
    moreover have "fst r = cursor_file w" "fst (snd r) = cursor_row w"
      using that(2) by (simp_all add: record_key_def current_position_def)
    ultimately show ?thesis by (simp add: prod_eq_iff)
  qed
  obtain r where r: "r \<in> set (store w)" "record_key r = ?k"
    using True by auto
  have "(cursor_file w, cursor_row w, None) \<in> set (store w)"
    using at_key [OF r] r(1) by simp
  then show ?thesis
    unfolding second using at_key by auto
qed

text \<open>
  The scenario store with the cursor on the unconditional breakpoint of line 10.
\<close>

theorem toggle_twice_restores_witness:
  "distinct (map record_key (store scenario_world)) \<and>
   filter (\<lambda>r. record_key r = current_position scenario_world) (store scenario_world)
     = [(''/a.py'', 10, None)] \<and>
   set (store (toggle (toggle scenario_world))) = set (store scenario_world)"
proof -
  have h1: "distinct (map record_key (store scenario_world))"
    by (simp add: scenario_world_def record_key_def)
  have h2: "\<forall>r \<in> set (store scenario_world).
      record_key r = current_position scenario_world \<longrightarrow> snd (snd r) = None"
    by (simp add: scenario_world_def record_key_def current_position_def)
  have h3: "filter (\<lambda>r. record_key r = current_position scenario_world) (store scenario_world)
     = [(''/a.py'', 10, None)]"
    by (simp add: scenario_world_def record_key_def current_position_def)
  from toggle_twice_restores [OF h1 h2] h1 h3 show ?thesis by blast
qed

subsection \<open>C2: one record per key after a mutating operation\<close>

text \<open>
  C2. After toggle, after an edit that returns and after clearAll, the records in the
  store have pairwise different (file, line) keys. (An edit whose prompt raises saves
  nothing.)
\<close>

theorem persisted_keys_unique:
  "distinct (map record_key (store (toggle w))) \<and>
   (\<forall>w'. edit w = Returned w' \<longrightarrow> distinct (map record_key (store w'))) \<and>
   distinct (map record_key (store (clearAll w)))"
  by (simp add: toggle_store_distinct edit_store_distinct clearAll_store)

text \<open>
  An edit on a store that holds two records under the cursor's key: it returns, and the
  saved store has one record per key.
\<close>

theorem persisted_keys_unique_witness:
  "edit reply_world =
     Returned (reply_world\<lparr>store := [(''/a.py'', 10, Some ''yz''), (''/a.py'', 20, Some ''x>0'')]\<rparr>) \<and>
   distinct (map record_key
     (store (reply_world\<lparr>store := [(''/a.py'', 10, Some ''yz''), (''/a.py'', 20, Some ''x>0'')]\<rparr>)))"
proof -
  have run: "edit reply_world =
     Returned (reply_world\<lparr>store := [(''/a.py'', 10, Some ''yz''), (''/a.py'', 20, Some ''x>0'')]\<rparr>)"
    by (simp add: reply_world_def adapter_defs)
  from persisted_keys_unique [of reply_world] run show ?thesis by blast
qed

subsection \<open>C3: display strings\<close>

text \<open>
  C3. Each record \<open>(f, l, c)\<close> of the store gives the string \<open>f:l:c'\<close>, in store order,
  where \<open>c'\<close> is the condition when there is a non-empty one and one space otherwise;
  the two-record store of the scenario gives exactly the two strings of the spec.
\<close>

theorem display_strings_format:
  "breakpoint_strings w =
     map (\<lambda>(f, l, c). f @ '':'' @ str_int l @ '':'' @
            (case c of None \<Rightarrow> '' '' | Some s \<Rightarrow> if s = [] then '' '' else s))
         (store w) \<and>
   (store w = [(''/a.py'', 10, None), (''/a.py'', 20, Some ''x>0'')] \<longrightarrow>
      breakpoint_strings w = [''/a.py:10: '', ''/a.py:20:x>0''])"
proof -
  have eq: "breakpoint_strings w =
     map (\<lambda>(f, l, c). f @ '':'' @ str_int l @ '':'' @
            (case c of None \<Rightarrow> '' '' | Some s \<Rightarrow> if s = [] then '' '' else s))
         (store w)"
    by (auto simp: breakpoint_strings_def breakpoints_def load_breakpoints_def Breakpoint_def
        split: option.splits)
  have ten: "str_int 10 = ''10''" and twenty: "str_int 20 = ''20''"
    by (simp_all add: str_int_def str_nat.simps digit_char_def)
  show ?thesis
    unfolding eq by (simp add: ten twenty)
qed

text \<open>
  The scenario store.
\<close>

theorem display_strings_format_witness:
  "store scenario_world = [(''/a.py'', 10, None), (''/a.py'', 20, Some ''x>0'')] \<and>
   breakpoint_strings scenario_world = [''/a.py:10: '', ''/a.py:20:x>0'']"
proof -
  have h: "store scenario_world = [(''/a.py'', 10, None), (''/a.py'', 20, Some ''x>0'')]"
    by (simp add: scenario_world_def)
  from display_strings_format [of scenario_world] h show ?thesis by blast
qed

subsection \<open>C4: clearAll\<close>

text \<open>
  C4. Whatever the store held, clearAll leaves it empty, and the mapping loaded
  afterwards is the empty one.
\<close>

theorem clearAll_empties: "store (clearAll w) = [] \<and> breakpoint_dict (clearAll w) = []"
  by (simp add: clearAll_store breakpoint_dict_def breakpoints_def load_breakpoints_def)

subsection \<open>C5: edit at a key without breakpoint\<close>

text \<open>
  C5. When no record of the store has the cursor's key, the dict that edit holds when
  the prompt opens is the loaded dict with exactly one more entry, an unconditional
  breakpoint at that key, and the prompt is filled with the empty string. Nothing is
  saved before the prompt returns: when the prompt raises, edit ends with that error
  and the world as it was; when it answers \<open>c\<close>, edit returns and the store holds the
  loaded breakpoints followed by the new one with condition \<open>c\<close>.
\<close>

theorem edit_creates_before_prompt:
  assumes "current_position w \<notin> set (map record_key (store w))"
  shows "edit_bps w =
           breakpoint_dict w @
           [(current_position w, Breakpoint (cursor_file w) (cursor_row w) None)] \<and>
         (input_reply w [] = None \<longrightarrow> edit w = Raised VimError w) \<and>
         (\<forall>c. input_reply w [] = Some c \<longrightarrow>
            (\<exists>w'. edit w = Returned w' \<and>
               store w' =
                 map (\<lambda>bp. (bp_file bp, line bp, cond bp)) (dict_values (breakpoint_dict w)) @
                 [(cursor_file w, cursor_row w, Some c)]))"
proof -
  let ?k = "current_position w"
  let ?d = "breakpoint_dict w"
  let ?new = "Breakpoint (cursor_file w) (cursor_row w) None"
  have notin: "?k \<notin> set (map fst ?d)"
    using assms breakpoint_dict_keys by simp
  then have bps: "edit_bps w = ?d @ [(?k, ?new)]"
    by (simp add: edit_bps_def Let_def dict_contains_def dict_set_absent current_position_def)
  have look: "dict_get (edit_bps w) ?k = Some ?new"
    unfolding bps dict_get_def using notin by (rule map_of_snoc_absent)
  have prefill: "old_cond ?new = []"
    by (simp add: old_cond_def Breakpoint_def)
  have fails: "edit w = Raised VimError w" if "input_reply w [] = None"
    using edit_raised [OF look] that prefill by simp
  have answers: "\<exists>w'. edit w = Returned w' \<and>
               store w' =
                 map (\<lambda>bp. (bp_file bp, line bp, cond bp)) (dict_values ?d) @
                 [(cursor_file w, cursor_row w, Some c)]"
    if "input_reply w [] = Some c" for c
  proof -
    have "input_reply w (old_cond ?new) = Some c" using that prefill by simp
    from edit_returned [OF look this]
    have "edit w = Returned (update (save_breakpoints
           (dict_values (dict_set ?k (?new\<lparr>cond := Some c\<rparr>) (edit_bps w))) w))" .
    moreover have "dict_set ?k (?new\<lparr>cond := Some c\<rparr>) (edit_bps w)
                   = ?d @ [(?k, ?new\<lparr>cond := Some c\<rparr>)]"
      unfolding bps using notin by (rule dict_set_snoc)
    ultimately show ?thesis
      by (simp add: store_save dict_values_def Breakpoint_def)
  qed
  show ?thesis using bps fails answers by blast
qed

text \<open>
  The cursor on line 30, where the store has no record, and a user who types \<^verbatim>\<open>z\<close>.
\<close>

theorem edit_creates_before_prompt_witness:
  "edit_bps (reply_world\<lparr>cursor_row := 30\<rparr>) =
     [((''/a.py'', 10), Breakpoint ''/a.py'' 10 (Some ''y'')),
      ((''/a.py'', 20), Breakpoint ''/a.py'' 20 (Some ''x>0'')),
      ((''/a.py'', 30), Breakpoint ''/a.py'' 30 None)] \<and>
   store (case edit (reply_world\<lparr>cursor_row := 30\<rparr>) of Returned w' \<Rightarrow> w' | Raised e w' \<Rightarrow> w') =
     [(''/a.py'', 10, Some ''y''), (''/a.py'', 20, Some ''x>0''), (''/a.py'', 30, Some ''z'')]"
proof -
  let ?w = "reply_world\<lparr>cursor_row := 30\<rparr>"
  have h: "current_position ?w \<notin> set (map record_key (store ?w))"
    by (simp add: reply_world_def current_position_def record_key_def)
  have d: "breakpoint_dict ?w =
     [((''/a.py'', 10), Breakpoint ''/a.py'' 10 (Some ''y'')),
      ((''/a.py'', 20), Breakpoint ''/a.py'' 20 (Some ''x>0''))]"
    by (simp add: reply_world_def breakpoint_dict_def breakpoints_def load_breakpoints_def
        Breakpoint_def)
  have r: "input_reply ?w [] = Some ''z''"
    by (simp add: reply_world_def)
  have c: "current_position ?w = (''/a.py'', 30)" "cursor_file ?w = ''/a.py''" "cursor_row ?w = 30"
    by (simp_all add: reply_world_def current_position_def)
  from edit_creates_before_prompt [OF h] r
  obtain w' where "edit_bps ?w = breakpoint_dict ?w @ [(current_position ?w, Breakpoint (cursor_file ?w) (cursor_row ?w) None)]"
    and "edit ?w = Returned w'"
    and "store w' = map (\<lambda>bp. (bp_file bp, line bp, cond bp)) (dict_values (breakpoint_dict ?w)) @
                 [(cursor_file ?w, cursor_row ?w, Some ''z'')]"
    by blast
  then show ?thesis
    by (simp add: d c dict_values_def Breakpoint_def)
qed

subsection \<open>C6: the mapping keeps the last record of a key\<close>

text \<open>
  C6. The keys of the mapping are pairwise different, and looking a key up gives the
  last breakpoint with that key in the store's order: the first match of the reversed
  sequence, that is, the breakpoint at index \<open>j\<close> whenever an earlier index \<open>i\<close> has the
  same key and no later index has it.
\<close>

theorem as_mapping_last_wins:
  "distinct (map fst (breakpoint_dict w)) \<and>
   dict_get (breakpoint_dict w) k =
     List.find (\<lambda>bp. (bp_file bp, line bp) = k) (rev (breakpoints w)) \<and>
   (\<forall>i j. i < j \<and> j < length (breakpoints w) \<and>
      (bp_file (breakpoints w ! i), line (breakpoints w ! i)) = k \<and>
      (bp_file (breakpoints w ! j), line (breakpoints w ! j)) = k \<and>
      (\<forall>m. j < m \<and> m < length (breakpoints w) \<longrightarrow>
         (bp_file (breakpoints w ! m), line (breakpoints w ! m)) \<noteq> k)
      \<longrightarrow> dict_get (breakpoint_dict w) k = Some (breakpoints w ! j))"
proof -
  have look: "dict_get (breakpoint_dict w) k =
     List.find (\<lambda>bp. (bp_file bp, line bp) = k) (rev (breakpoints w))"
    unfolding dict_get_def breakpoint_dict_def
    using fold_dict_map_of [of "\<lambda>bp. (bp_file bp, line bp)" "breakpoints w" "[]" k]
    by (simp split: option.splits)
  have "dict_get (breakpoint_dict w) k = Some (breakpoints w ! j)"
    if "j < length (breakpoints w)"
       "(bp_file (breakpoints w ! j), line (breakpoints w ! j)) = k"
       "\<forall>m. j < m \<and> m < length (breakpoints w) \<longrightarrow>
         (bp_file (breakpoints w ! m), line (breakpoints w ! m)) \<noteq> k" for j
    unfolding look
    using find_rev_last [of j "breakpoints w" "\<lambda>bp. (bp_file bp, line bp) = k"] that
    by simp
  then show ?thesis
    using look breakpoint_dict_distinct by blast
qed

text \<open>
  Two records under the key (\<^verbatim>\<open>/a.py\<close>, 1): the second one is kept.
\<close>

theorem as_mapping_last_wins_witness:
  "breakpoints duplicate_world ! 0 = Breakpoint ''/a.py'' 1 (Some ''x>0'') \<and>
   breakpoints duplicate_world ! 1 = Breakpoint ''/a.py'' 1 None \<and>
   dict_get (breakpoint_dict duplicate_world) (''/a.py'', 1) = Some (Breakpoint ''/a.py'' 1 None)"
proof -
  let ?bps = "breakpoints duplicate_world"
  have bps: "?bps =
     [Breakpoint ''/a.py'' 1 (Some ''x>0''), Breakpoint ''/a.py'' 1 None,
      Breakpoint ''/b.py'' 2 None]"
    by (simp add: duplicate_world_def breakpoints_def load_breakpoints_def)
  have later: "\<forall>m. 1 < m \<and> m < length ?bps \<longrightarrow>
                 (bp_file (?bps ! m), line (?bps ! m)) \<noteq> (''/a.py'', 1)"
  proof (intro allI impI)
    fix m assume "1 < m \<and> m < length ?bps"
    then have "m = 2" by (simp add: bps)
    then show "(bp_file (?bps ! m), line (?bps ! m)) \<noteq> (''/a.py'', 1)"
      by (simp add: bps Breakpoint_def)
  qed
  have pre: "(0::nat) < 1 \<and> 1 < length ?bps \<and>
      (bp_file (?bps ! 0), line (?bps ! 0)) = (''/a.py'', 1) \<and>
      (bp_file (?bps ! 1), line (?bps ! 1)) = (''/a.py'', 1) \<and>
      (\<forall>m. 1 < m \<and> m < length ?bps \<longrightarrow>
         (bp_file (?bps ! m), line (?bps ! m)) \<noteq> (''/a.py'', 1))"
  proof (intro conjI)
    show "(0::nat) < 1" by simp
    show "1 < length ?bps" by (simp add: bps)
    show "(bp_file (?bps ! 0), line (?bps ! 0)) = (''/a.py'', 1)"
      by (simp add: bps Breakpoint_def)
    show "(bp_file (?bps ! 1), line (?bps ! 1)) = (''/a.py'', 1)"
      by (simp add: bps Breakpoint_def)
    show "\<forall>m. 1 < m \<and> m < length ?bps \<longrightarrow>
         (bp_file (?bps ! m), line (?bps ! m)) \<noteq> (''/a.py'', 1)"
      by (rule later)
  qed
  have last_wins: "\<forall>i j. i < j \<and> j < length ?bps \<and>
      (bp_file (?bps ! i), line (?bps ! i)) = (''/a.py'', 1) \<and>
      (bp_file (?bps ! j), line (?bps ! j)) = (''/a.py'', 1) \<and>
      (\<forall>m. j < m \<and> m < length ?bps \<longrightarrow>
         (bp_file (?bps ! m), line (?bps ! m)) \<noteq> (''/a.py'', 1))
      \<longrightarrow> dict_get (breakpoint_dict duplicate_world) (''/a.py'', 1) = Some (?bps ! j)"
    by (rule conjunct2 [OF conjunct2 [OF as_mapping_last_wins [of duplicate_world "(''/a.py'', 1)"]]])
  have "dict_get (breakpoint_dict duplicate_world) (''/a.py'', 1) = Some (?bps ! 1)"
    by (rule mp [OF spec [OF spec [OF last_wins]] pre])
  then show ?thesis by (simp add: bps)
qed

subsection \<open>C7: the entries of populateList\<close>

text \<open>
  C7 as stated does not hold. In \<open>loaded_world\<close> the buffer of \<^verbatim>\<open>/a.py\<close> is loaded and has
  two lines; for the breakpoint on line 3 the lookup gives the empty list, and the text
  of the entry is the placeholder for a buffer that is not loaded, which is no line of
  the buffer.
\<close>

theorem populate_list_out_of_range_counterexample:
  "buffers loaded_world ''/a.py'' = Some [''x = 1'', ''  ''] \<and>
   (''/a.py'', 3, None) \<in> set (store loaded_world) \<and>
   qf_line loaded_world (Breakpoint ''/a.py'' 3 None) = ''<buffer not loaded>'' \<and>
   qf_entries loaded_world ! 3 = ''/a.py:3:<buffer not loaded>''"
proof -
  have three: "str_int 3 = ''3''"
    by (simp add: str_int_def str_nat.simps digit_char_def)
  have line: "qf_line loaded_world (Breakpoint ''/a.py'' 3 None) = ''<buffer not loaded>''"
    by (simp add: qf_line_cases loaded_world_def Breakpoint_def)
  have "qf_entries loaded_world ! 3 = ''/a.py:3:<buffer not loaded>''"
    unfolding qf_entries_eq
    by (simp add: loaded_world_def breakpoints_def load_breakpoints_def Breakpoint_def
        qf_line_cases three)
  then show ?thesis using line by (simp add: loaded_world_def)
qed

text \<open>
  C7, amended. populateList hands the list command one entry \<open>file:line:linetext\<close> per
  record of the store, in store order, where linetext is \<^verbatim>\<open><buffer not loaded>\<close> when
  the buffer is not loaded or the line number is outside the loaded buffer,
  \<^verbatim>\<open><blank line>\<close> when the line is empty or all whitespace, and the line otherwise.
\<close>

theorem populate_list_entries:
  "list_commands (populateList list_command w) =
     list_commands w @
     [(list_command,
       map (\<lambda>(f, l, c). f @ '':'' @ str_int l @ '':'' @
              (case buffers w f of
                 None \<Rightarrow> ''<buffer not loaded>''
               | Some ls \<Rightarrow>
                   if 1 \<le> l \<and> l \<le> int (length ls)
                   then if list_all is_space (ls ! nat (l - 1)) then ''<blank line>''
                        else ls ! nat (l - 1)
                   else ''<buffer not loaded>''))
           (store w))]"
proof -
  have "qf_entries (update w) =
       map (\<lambda>(f, l, c). f @ '':'' @ str_int l @ '':'' @
              (case buffers w f of
                 None \<Rightarrow> ''<buffer not loaded>''
               | Some ls \<Rightarrow>
                   if 1 \<le> l \<and> l \<le> int (length ls)
                   then if list_all is_space (ls ! nat (l - 1)) then ''<blank line>''
                        else ls ! nat (l - 1)
                   else ''<buffer not loaded>''))
           (store w)"
    unfolding qf_entries_eq breakpoints_update qf_line_update
    by (auto simp: qf_line_cases breakpoints_def load_breakpoints_def
        Breakpoint_def split: option.splits)
  moreover have "list_commands (update w) = list_commands w"
    by (simp add: update_eq)
  ultimately show ?thesis
    by (simp add: populateList_def Let_def)
qed

text \<open>
  A loaded buffer with a source line and a blank line, and a file without buffer.
\<close>

theorem populate_list_entries_witness:
  "list_commands (populateList ''cgetexpr'' loaded_world) =
     [(''cgetexpr'',
       [''/a.py:1:x = 1'', ''/b.py:7:<buffer not loaded>'', ''/a.py:2:<blank line>'',
        ''/a.py:3:<buffer not loaded>''])]"
proof -
  have nums: "str_int 1 = ''1''" "str_int 2 = ''2''" "str_int 3 = ''3''" "str_int 7 = ''7''"
    by (simp_all add: str_int_def str_nat.simps digit_char_def)
  show ?thesis
    unfolding populate_list_entries
    by (simp add: loaded_world_def nums is_space_def)
qed

subsection \<open>C8: the signs after update\<close>

text \<open>
  C8. After update the signs are exactly one sign per record of the store whose buffer
  is loaded, in store order and with the configured priority: no sign placed before
  remains, and a record whose buffer is not loaded is passed over without stopping the
  loop. The store and the buffers are as before.
\<close>

theorem update_places_signs:
  "signs (update w) =
     map (\<lambda>(f, l, c). (f, l, pudb_priority w))
         (filter (\<lambda>(f, l, c). buffers w f \<noteq> None) (store w)) \<and>
   store (update w) = store w \<and> buffers (update w) = buffers w"
  by (simp add: update_eq breakpoints_def load_breakpoints_def Breakpoint_def filter_map
      comp_def split_def)

text \<open>
  An old sign is gone; the record of \<^verbatim>\<open>/b.py\<close>, which has no buffer, is second in the
  store, and the two records after it get their signs.
\<close>

theorem update_places_signs_witness:
  "signs loaded_world = [(''/old.py'', 4, 10)] \<and>
   signs (update loaded_world) = [(''/a.py'', 1, 10), (''/a.py'', 2, 10), (''/a.py'', 3, 10)]"
proof -
  have "signs loaded_world = [(''/old.py'', 4, 10)]"
    by (simp add: loaded_world_def)
  moreover have "map (\<lambda>(f, l, c). (f, l, pudb_priority loaded_world))
         (filter (\<lambda>(f, l, c). buffers loaded_world f \<noteq> None) (store loaded_world))
      = [(''/a.py'', 1, 10), (''/a.py'', 2, 10), (''/a.py'', 3, 10)]"
    by (simp add: loaded_world_def)
  ultimately show ?thesis
    using update_places_signs [of loaded_world] by simp
qed

subsection \<open>C9: toggle at a present key\<close>

text \<open>
  C9 as stated does not hold for a store with two records under one key: the dict
  keeps the last of them, so toggling at another key loses the first.
\<close>

theorem toggle_drops_duplicate_counterexample:
  "current_position duplicate_world \<in> set (map record_key (store duplicate_world)) \<and>
   (''/a.py'', 1, Some ''x>0'') \<in> set (store duplicate_world) \<and>
   record_key (''/a.py'', 1, Some ''x>0'') \<noteq> current_position duplicate_world \<and>
   (''/a.py'', 1, Some ''x>0'') \<notin> set (store (toggle duplicate_world))"
  by (simp add: duplicate_world_def adapter_defs)

text \<open>
  C9, amended. For a store whose (file, line) keys are unique and a cursor whose key is
  present, toggle removes the record at that key and leaves every other record as it
  was, in the same order.
\<close>

theorem toggle_removes_only_key:
  assumes "distinct (map record_key (store w))"
      and "current_position w \<in> set (map record_key (store w))"
  shows "store (toggle w) = filter (\<lambda>r. record_key r \<noteq> current_position w) (store w)"
  using assms by (rule toggle_present)

text \<open>
  The scenario of the spec: the cursor on line 10 leaves only the record of line 20.
\<close>

theorem toggle_removes_only_key_witness:
  "distinct (map record_key (store scenario_world)) \<and>
   current_position scenario_world \<in> set (map record_key (store scenario_world)) \<and>
   store (toggle scenario_world) = [(''/a.py'', 20, Some ''x>0'')]"
proof -
  have h1: "distinct (map record_key (store scenario_world))"
    by (simp add: scenario_world_def record_key_def)
  have h2: "current_position scenario_world \<in> set (map record_key (store scenario_world))"
    by (simp add: scenario_world_def record_key_def current_position_def)
  have "filter (\<lambda>r. record_key r \<noteq> current_position scenario_world) (store scenario_world)
        = [(''/a.py'', 20, Some ''x>0'')]"
    by (simp add: scenario_world_def record_key_def current_position_def)
  with toggle_removes_only_key [OF h1 h2] h1 h2 show ?thesis by simp
qed

subsection \<open>C10: the empty condition\<close>

text \<open>
  C10. Replacing every empty condition of the store by no condition changes no display
  string; a record with the empty condition is displayed as \<open>file:line:\<close> followed by one
  space; and an edit whose prompt is answered with the empty string returns and stores
  the empty string (not \<open>None\<close>) as the condition at the cursor's key.
\<close>

theorem empty_condition_display:
  "breakpoint_strings
     (w\<lparr>store := map (\<lambda>(f, l, c). (f, l, if c = Some [] then None else c)) (store w)\<rparr>)
     = breakpoint_strings w \<and>
   breakpoint_strings (w\<lparr>store := [(f, l, Some [])]\<rparr>) = [f @ '':'' @ str_int l @ '': ''] \<and>
   (\<forall>bp. dict_get (edit_bps w) (current_position w) = Some bp \<and>
         input_reply w (old_cond bp) = Some [] \<longrightarrow>
      (\<exists>w'. edit w = Returned w' \<and>
            (cursor_file w, cursor_row w, Some []) \<in> set (store w')))"
proof -
  have norm: "breakpoint_strings
     (w\<lparr>store := map (\<lambda>(f, l, c). (f, l, if c = Some [] then None else c)) (store w)\<rparr>)
     = breakpoint_strings w"
    by (auto simp: breakpoint_strings_def breakpoints_def load_breakpoints_def Breakpoint_def
        split: option.splits)
  have single: "breakpoint_strings (w\<lparr>store := [(f, l, Some [])]\<rparr>) = [f @ '':'' @ str_int l @ '': '']"
    by (simp add: breakpoint_strings_def breakpoints_def load_breakpoints_def Breakpoint_def)
  have stored: "\<exists>w'. edit w = Returned w' \<and> (cursor_file w, cursor_row w, Some []) \<in> set (store w')"
    if look: "dict_get (edit_bps w) (current_position w) = Some bp"
      and reply: "input_reply w (old_cond bp) = Some []" for bp
  proof -
    let ?k = "current_position w"
    let ?d = "dict_set ?k (bp\<lparr>cond := Some []\<rparr>) (edit_bps w)"
    obtain bp' where "dict_get (edit_bps w) ?k = Some bp'" "(bp_file bp', line bp') = ?k"
      using edit_bps_lookup by blast
    then have key: "bp_file bp = cursor_file w" "line bp = cursor_row w"
      using look by (simp_all add: current_position_def)
    have "map_of ?d ?k = Some (bp\<lparr>cond := Some []\<rparr>)"
      by (simp add: dict_set_map_of)
    then have "(?k, bp\<lparr>cond := Some []\<rparr>) \<in> set ?d"
      by (rule map_of_SomeD)
    then have "bp\<lparr>cond := Some []\<rparr> \<in> set (dict_values ?d)"
      by (force simp: dict_values_def)
    then have "(cursor_file w, cursor_row w, Some []) \<in>
               set (map (\<lambda>bp. (bp_file bp, line bp, cond bp)) (dict_values ?d))"
      using key by force
    then show ?thesis
      using edit_returned [OF look reply] by (simp add: store_save)
  qed
  show ?thesis using norm single stored by blast
qed

text \<open>
  The breakpoint of line 20 loses its condition at the prompt.
\<close>

theorem empty_condition_display_witness:
  "dict_get (edit_bps (scenario_world\<lparr>cursor_row := 20, input_reply := (\<lambda>prefill. Some [])\<rparr>))
     (''/a.py'', 20) = Some (Breakpoint ''/a.py'' 20 (Some ''x>0'')) \<and>
   (\<exists>w'. edit (scenario_world\<lparr>cursor_row := 20, input_reply := (\<lambda>prefill. Some [])\<rparr>)
            = Returned w' \<and>
         (''/a.py'', 20, Some []) \<in> set (store w')) \<and>
   breakpoint_strings
     (scenario_world\<lparr>store := [(''/a.py'', 10, None), (''/a.py'', 20, Some [])]\<rparr>)
     = [''/a.py:10: '', ''/a.py:20: '']"
proof -
  let ?w = "scenario_world\<lparr>cursor_row := 20, input_reply := (\<lambda>prefill. Some [])\<rparr>"
  let ?bp = "Breakpoint ''/a.py'' 20 (Some ''x>0'')"
  let ?v = "scenario_world\<lparr>store := [(''/a.py'', 10, None), (''/a.py'', 20, Some [])]\<rparr>"
  have pos: "current_position ?w = (''/a.py'', 20)"
    by (simp add: scenario_world_def current_position_def)
  have cur: "cursor_file ?w = ''/a.py''" "cursor_row ?w = 20"
    by (simp_all add: scenario_world_def)
  have look: "dict_get (edit_bps ?w) (current_position ?w) = Some ?bp"
    by (simp add: scenario_world_def edit_bps_def breakpoint_dict_def breakpoints_def
        load_breakpoints_def Breakpoint_def dict_contains_def dict_get_def current_position_def)
  have reply: "input_reply ?w (old_cond ?bp) = Some []"
    by simp
  have "\<forall>bp. dict_get (edit_bps ?w) (current_position ?w) = Some bp \<and>
         input_reply ?w (old_cond bp) = Some [] \<longrightarrow>
      (\<exists>w'. edit ?w = Returned w' \<and>
            (cursor_file ?w, cursor_row ?w, Some []) \<in> set (store w'))"
    by (rule conjunct2 [OF conjunct2 [OF empty_condition_display [of ?w]]])
  from mp [OF spec [OF this] conjI [OF look reply]]
  have stored: "\<exists>w'. edit ?w = Returned w' \<and> (''/a.py'', 20, Some []) \<in> set (store w')"
    by (simp only: cur)
  have nums: "str_int 10 = ''10''" "str_int 20 = ''20''"
    by (simp_all add: str_int_def str_nat.simps digit_char_def)
  have "breakpoint_strings
          (?v\<lparr>store := map (\<lambda>(f, l, c). (f, l, if c = Some [] then None else c)) (store ?v)\<rparr>)
        = breakpoint_strings ?v"
    by (rule conjunct1 [OF empty_condition_display [of ?v]])
  then have "breakpoint_strings ?v =
             breakpoint_strings (?v\<lparr>store := [(''/a.py'', 10, None), (''/a.py'', 20, None)]\<rparr>)"
    by simp
  also have "\<dots> = [''/a.py:10: '', ''/a.py:20: '']"
    by (simp add: breakpoint_strings_def breakpoints_def load_breakpoints_def Breakpoint_def nums)
  finally have shown: "breakpoint_strings ?v = [''/a.py:10: '', ''/a.py:20: '']" .
  have look': "dict_get (edit_bps ?w) (''/a.py'', 20) = Some ?bp"
    using look by (simp only: pos)
  show ?thesis
    by (intro conjI) (rule look', rule stored, rule shown)
qed

end
